theory Spec2Isabelle
  imports Main "HOL-Library.Word"
begin

unbundle bit_operations_syntax

section \<open>The declarations of \<open>src/cyber.h\<close>\<close>

subsection \<open>Scalar types and the null identifier\<close>

text \<open>
  \<^verbatim>\<open>typedef uint64_t CyValue;\<close>
  A \<open>CyValue\<close> is an unsigned 64-bit integer. It is passed and returned by value in every
  prototype of the header (\<open>cyVmRelease\<close>, \<open>cyValueNumber\<close>, \<open>CyFunc\<close>).
\<close>

type_synonym CyValue = "64 word"

text \<open>
  The object representation of a \<open>CyValue\<close>: all the bits of the type, as many as its
  width (\<open>size\<close> of a word is the width of its type), least significant first; and the
  value a sequence of bits stands for.
\<close>

definition CyValue_bits :: "CyValue \<Rightarrow> bool list" where
  "CyValue_bits v = map (bit v) [0..<size v]"

definition CyValue_of_bits :: "bool list \<Rightarrow> CyValue" where
  "CyValue_of_bits bs = horner_sum of_bool 2 bs"

text \<open>
  A C assignment, an argument passed or a value returned copies the object representation
  of an integer: the copy is the value its bits stand for. Nothing else is attached to a
  \<open>CyValue\<close> by its type.
\<close>

definition CyValue_copy :: "CyValue \<Rightarrow> CyValue" where
  "CyValue_copy v = CyValue_of_bits (CyValue_bits v)"

text \<open>
  \<^verbatim>\<open>const uint32_t CY_NullId = UINT32_MAX;\<close>
  \<open>UINT32_MAX\<close> comes from \<^verbatim>\<open>stdint.h\<close>: the maximum of \<open>uint32_t\<close>, exactly
  \<open>2^32 - 1\<close>.
\<close>

definition UINT32_MAX :: "32 word" where
  "UINT32_MAX = 2 ^ 32 - 1"

definition CY_NullId :: "32 word" where
  "CY_NullId = UINT32_MAX"

subsection \<open>Result codes\<close>

text \<open>
  \<^verbatim>\<open>
  typedef enum {
      CY_Success = 0,
      CY_ErrorToken,
      CY_ErrorParse,
      CY_ErrorCompile,
      CY_ErrorPanic,
      CY_ErrorUnknown,
  } CyResultCode;
  \<close>
  The enumerators are a datatype. Their numeric values are not written in the header but
  for the first: C gives an enumerator without \<open>=\<close> the value of the previous one plus
  one (and 0 to a first enumerator without \<open>=\<close>). \<open>enum_values\<close> is that rule, run over
  the enumerator list as the header writes it.
\<close>

datatype CyResultCode =
    CY_Success
  | CY_ErrorToken
  | CY_ErrorParse
  | CY_ErrorCompile
  | CY_ErrorPanic
  | CY_ErrorUnknown

fun enum_values :: "int \<Rightarrow> ('a \<times> int option) list \<Rightarrow> ('a \<times> int) list" where
  "enum_values nxt [] = []"
| "enum_values nxt ((e, Some v) # es) = (e, v) # enum_values (v + 1) es"
| "enum_values nxt ((e, None) # es) = (e, nxt) # enum_values (nxt + 1) es"

definition CyResultCode_enumerators :: "(CyResultCode \<times> int option) list" where
  "CyResultCode_enumerators =
     [(CY_Success, Some 0),
      (CY_ErrorToken, None),
      (CY_ErrorParse, None),
      (CY_ErrorCompile, None),
      (CY_ErrorPanic, None),
      (CY_ErrorUnknown, None)]"

definition CyResultCode_values :: "(CyResultCode \<times> int) list" where
  "CyResultCode_values = enum_values 0 CyResultCode_enumerators"

subsection \<open>Sized strings\<close>

text \<open>
  \<^verbatim>\<open>
  // Null terminated string, but also includes a length.
  typedef struct CStr {
      char* charz;
      size_t len;
  } CStr;
  #define cstr(X) (CStr){ X, strlen(X) }
  \<close>
  A \<open>char*\<close> is modelled by what it points to: the bytes from the pointer to the end of
  the object it points into, so that \<open>p[i]\<close> is \<open>p ! i\<close> and is defined for
  \<open>i < length p\<close> only. \<open>size_t\<close> is \<open>nat\<close>: \<open>strlen\<close> returns a \<open>size_t\<close> and
  \<open>len\<close> is one, no conversion happens between them, and the length of an object always
  fits its platform's \<open>size_t\<close>.
\<close>

type_synonym cchar = "8 word"

record CStr =
  charz :: "cchar list"
  len :: nat

text \<open>
  \<open>strlen\<close> is the C library's (\<^verbatim>\<open>string.h\<close>, included by the header): the number of
  characters that precede the terminating NUL. It reads byte after byte; reading past the
  end of the object without meeting a NUL is undefined behaviour, \<open>None\<close> here.
\<close>

fun strlen :: "cchar list \<Rightarrow> nat option" where
  "strlen [] = None"
| "strlen (c # cs) = (if c = 0 then Some 0 else map_option Suc (strlen cs))"

text \<open>The macro: a compound literal of \<open>X\<close> and \<open>strlen(X)\<close>.\<close>

definition cstr :: "cchar list \<Rightarrow> CStr option" where
  "cstr X = map_option (\<lambda>n. \<lparr>charz = X, len = n\<rparr>) (strlen X)"

subsection \<open>Native functions and their registration\<close>

text \<open>
  \<^verbatim>\<open>typedef CyValue (*CyFunc)(CyUserVM* vm, CyValue* args, uint8_t nargs);\<close>
  \<^verbatim>\<open>void cyVmSetModuleFunc(CyUserVM* vm, CyModule* mod, CStr name, uint32_t numParams, CyFunc func);\<close>
  \<open>CyFuncCall\<close> is what one invocation of a \<open>CyFunc\<close> receives (the VM handle apart),
  \<open>ModuleFuncReg\<close> what one call of \<open>cyVmSetModuleFunc\<close> registers (the VM and module
  handles and the function pointer apart).
\<close>

record CyFuncCall =
  args :: "CyValue list"
  nargs :: "8 word"

record ModuleFuncReg =
  name :: CStr
  numParams :: "32 word"

text \<open>
  The C comparison \<open>nargs == numParams\<close>: the \<open>uint8_t\<close> is promoted and converted to
  the 32-bit unsigned type, keeping its value.
\<close>

definition nargs_eq_numParams :: "CyFuncCall \<Rightarrow> ModuleFuncReg \<Rightarrow> bool" where
  "nargs_eq_numParams call reg \<longleftrightarrow> (ucast (nargs call) :: 32 word) = numParams reg"

section \<open>The value encoding, as the specification describes it\<close>

text \<open>
  The header declares the four constructors and the accessor as prototypes only:
  \<^verbatim>\<open>
  CyValue cyValueNone();
  CyValue cyValueTrue();
  CyValue cyValueFalse();
  CyValue cyValueNumber(double n);
  double cyValueAsDouble(CyValue val);
  \<close>
  A C \<open>double\<close> is an IEEE-754 binary64 datum: a sign bit, an 11-bit biased exponent and
  a 52-bit fraction. The record keeps the three fields; \<open>double_bits\<close> is the 64-bit
  pattern of the datum (sign in bit 63, exponent in bits 62 to 52, fraction in bits 51
  to 0) and \<open>double_of_bits\<close> reads a pattern back. No arithmetic on doubles is modelled.
\<close>

record ieee_double =
  sign :: bool
  exponent :: "11 word"
  fraction :: "52 word"

definition double_bits :: "ieee_double \<Rightarrow> 64 word" where
  "double_bits d =
     push_bit 63 (of_bool (sign d)) OR push_bit 52 (ucast (exponent d)) OR ucast (fraction d)"

definition double_of_bits :: "64 word \<Rightarrow> ieee_double" where
  "double_of_bits w =
     \<lparr>sign = bit w 63, exponent = ucast (drop_bit 52 w), fraction = ucast w\<rparr>"

text \<open>
  The classes of IEEE-754: a double is finite unless its exponent field is all ones; with
  an all-ones exponent, a zero fraction is an infinity and a non-zero one a NaN. The
  canonical quiet NaN is \<open>0x7FF8000000000000\<close>: positive sign, only the top fraction bit
  set.
\<close>

definition double_is_finite :: "ieee_double \<Rightarrow> bool" where
  "double_is_finite d \<longleftrightarrow> exponent d \<noteq> 0x7FF"

definition positive_infinity :: ieee_double where
  "positive_infinity = \<lparr>sign = False, exponent = 0x7FF, fraction = 0\<rparr>"

definition negative_infinity :: ieee_double where
  "negative_infinity = \<lparr>sign = True, exponent = 0x7FF, fraction = 0\<rparr>"

definition canonical_quiet_nan :: ieee_double where
  "canonical_quiet_nan = \<lparr>sign = False, exponent = 0x7FF, fraction = 2 ^ 51\<rparr>"

text \<open>Modelled from the spec: the body of \<open>cyValueNumber\<close> is missing from the header. The
  specification describes the tagged value as NaN-boxed, "a double whose quiet-NaN space
  discriminates non-number variants": a number is stored as the double itself, that is as
  its own 64-bit pattern.
\<close>

definition cyValueNumber :: "ieee_double \<Rightarrow> CyValue" where
  "cyValueNumber n = double_bits n"

text \<open>Modelled from the spec: the body of \<open>cyValueAsDouble\<close> is missing from the header.
  The accessor "recovers the host-native double" of a value that encodes a number: it
  reads the 64 bits as a double.
\<close>

definition cyValueAsDouble :: "CyValue \<Rightarrow> ieee_double" where
  "cyValueAsDouble val = double_of_bits val"

section \<open>The virtual machine, as the specification describes it\<close>

text \<open>
  The header declares the operations on a VM handle as prototypes only:
  \<^verbatim>\<open>
  typedef void (*CyLoadModuleFunc)(CyUserVM* vm, CyModule* mod);
  CyUserVM* cyVmCreate();
  CyResultCode cyVmEval(CyUserVM* vm, CStr src, CyValue* outVal);
  CStr cyVmGetLastErrorReport(CyUserVM* vm);
  void cyVmAddModuleLoader(CyUserVM* vm, CStr name, CyLoadModuleFunc func);
  void cyVmSetModuleFunc(CyUserVM* vm, CyModule* mod, CStr name, uint32_t numParams, CyFunc func);
  \<close>
  and \<open>struct CyUserVM\<close> is opaque. What follows is the module registrar and the
  evaluator of the specification (its sections 4.1, 4.2 and 4.4), on the part of a VM
  they speak of. Module names are \<open>string\<close>s: the bytes a \<open>CStr\<close> argument carries.
\<close>

subsection \<open>State\<close>

text \<open>Modelled from the spec: the state machine of a module name, missing from the header.
  "Unregistered: no loader exists. Registered, unloaded: loader exists but has not been
  invoked. Loading: loader callback is running. Loaded: loader has returned; the module's
  function table is sealed."
\<close>

datatype module_state = Unregistered | Registered | Loading | Loaded

text \<open>Modelled from the spec: the events of a VM, missing from the header.
  What is observed of a VM over its lifetime: a loader callback being invoked and
  returning, a script reaching a module (its import resolving to the module), and the
  execution of a compiled program beginning.
\<close>

datatype vm_event =
    LoaderInvoked string
  | LoaderReturned string
  | ModuleAccess string
  | ExecutionBegan

text \<open>Modelled from the spec: what a \<open>CyLoadModuleFunc\<close> does, host code the header
  only gives a type. A loader callback is host code that "calls set-module-function zero or more times" on
  the module handle it is given: it is modelled by the registrations it makes, in order.
\<close>

type_synonym CyLoadModuleFunc = "ModuleFuncReg list"

text \<open>Modelled from the spec: \<open>struct CyUserVM\<close>, opaque in the header. The registered
  loaders, the state and the function table of every module name, the "persistent global
  environment" (of a type \<open>'env\<close> left to the language), the recorded diagnostic, and
  the events so far.
\<close>

record 'env CyUserVM =
  loaders :: "string \<Rightarrow> CyLoadModuleFunc option"
  modules :: "string \<Rightarrow> module_state"
  funcs :: "string \<Rightarrow> ModuleFuncReg list"
  globals :: 'env
  lastErrorReport :: string
  trace :: "vm_event list"

text \<open>Modelled from the spec: the body of \<open>cyVmCreate\<close> is missing from the header. A
  successful create: "the VM has no loaded modules beyond whatever built-ins the internal
  runtime provides"; the built-in names and the initial environment are parameters.
\<close>

definition cyVmCreate :: "string list \<Rightarrow> 'env \<Rightarrow> 'env CyUserVM" where
  "cyVmCreate builtins env0 =
     \<lparr>loaders = (\<lambda>n. None),
      modules = (\<lambda>n. if n \<in> set builtins then Loaded else Unregistered),
      funcs = (\<lambda>n. []),
      globals = env0,
      lastErrorReport = [],
      trace = []\<rparr>"

subsection \<open>Module registrar\<close>

text \<open>Modelled from the spec: the body of \<open>cyVmAddModuleLoader\<close> is missing from the header.
  The state "registered, unloaded" "occurs after add-module-loader": the call takes an
  unregistered name to it and stores the callback. The specification gives the call no
  transition from another state (a loaded module stays "cached"): there the VM is
  unchanged.
\<close>

definition cyVmAddModuleLoader ::
  "'env CyUserVM \<Rightarrow> string \<Rightarrow> CyLoadModuleFunc \<Rightarrow> 'env CyUserVM" where
  "cyVmAddModuleLoader vm n func =
     (if modules vm n = Unregistered
      then vm\<lparr>loaders := (loaders vm)(n \<mapsto> func), modules := (modules vm)(n := Registered)\<rparr>
      else vm)"

text \<open>Modelled from the spec: the body of \<open>cyVmSetModuleFunc\<close> is missing from the header.
  It installs a function in the table of a module that is loading; "further
  set-module-function calls on the now-invalid module handle are undefined", and leave
  the model unchanged.
\<close>

definition cyVmSetModuleFunc ::
  "'env CyUserVM \<Rightarrow> string \<Rightarrow> ModuleFuncReg \<Rightarrow> 'env CyUserVM" where
  "cyVmSetModuleFunc vm modl reg =
     (if modules vm modl = Loading
      then vm\<lparr>funcs := (funcs vm)(modl := funcs vm modl @ [reg])\<rparr>
      else vm)"

text \<open>Modelled from the spec: the invocation of a loader, missing from the header. "The VM
  has produced a fresh module handle and passed it to the callback", the callback runs
  its registrations, and on its return the table is sealed: the module is loaded.
\<close>

definition load_module ::
  "'env CyUserVM \<Rightarrow> string \<Rightarrow> CyLoadModuleFunc \<Rightarrow> 'env CyUserVM" where
  "load_module vm n func =
     (let vm1 = vm\<lparr>modules := (modules vm)(n := Loading),
                    trace := trace vm @ [LoaderInvoked n]\<rparr>;
          vm2 = foldl (\<lambda>v reg. cyVmSetModuleFunc v n reg) vm1 func
      in vm2\<lparr>modules := (modules vm2)(n := Loaded),
              trace := trace vm2 @ [LoaderReturned n]\<rparr>)"

text \<open>Modelled from the spec: the resolution of one import, missing from the header.
  Importing an unregistered name "fails at compile time" (\<open>None\<close>); a registered,
  unloaded name has its loader invoked, "lazily on first import"; a loaded name
  "resolves immediately from the cached loaded module"; a module that is still loading
  is not yet visible. The import's resolving is the script's access to the module.
\<close>

definition import_module :: "'env CyUserVM \<Rightarrow> string \<Rightarrow> 'env CyUserVM option" where
  "import_module vm n =
     (case modules vm n of
        Unregistered \<Rightarrow> None
      | Registered \<Rightarrow>
          (case loaders vm n of
             None \<Rightarrow> None
           | Some func \<Rightarrow>
               (let vm' = load_module vm n func
                in Some (vm'\<lparr>trace := trace vm' @ [ModuleAccess n]\<rparr>)))
      | Loading \<Rightarrow> None
      | Loaded \<Rightarrow> Some (vm\<lparr>trace := trace vm @ [ModuleAccess n]\<rparr>))"

text \<open>Modelled from the spec: the resolution of the imports of a program, missing from
  the header. They are resolved in order; the first that fails stops the compilation and
  is returned.
\<close>

fun import_all :: "'env CyUserVM \<Rightarrow> string list \<Rightarrow> 'env CyUserVM \<times> string option" where
  "import_all vm [] = (vm, None)"
| "import_all vm (n # ns) =
     (case import_module vm n of
        None \<Rightarrow> (vm, Some n)
      | Some vm' \<Rightarrow> import_all vm' ns)"

subsection \<open>Evaluator\<close>

text \<open>Modelled from the spec: the stages of the evaluator, missing from the header.
  The lexer, the parser, the compiler and the interpreter are outside the specification,
  which constrains "only the result codes and error-report string they must surface".
  They are parameters: each static stage accepts its input, rejects it with a diagnostic,
  or fails in a way the VM cannot classify; a program names the modules it imports; the
  compiler is given the function tables of the modules and the global environment (an
  undefined symbol is a compile error, and what is defined depends on the evals before)
  and returns the environment it leaves with its result: that a rejecting compiler leaves
  the environment as it was is a requirement on the compiler, not a property of this
  pipeline; execution runs in the global environment and returns a value, panics, or aborts on a
  broken internal invariant, each with the environment it leaves, or never returns
  (\<open>None\<close>: "a script running an infinite loop runs until it returns or the process is
  terminated").
\<close>

datatype 'a stage_result = Accepted 'a | Rejected string | Unclassified string

datatype exec_result = Returned CyValue | Panicked string | Aborted string

record ('tok, 'ast, 'code, 'env) pipeline =
  tokenize :: "string \<Rightarrow> 'tok stage_result"
  parse :: "'tok \<Rightarrow> 'ast stage_result"
  imports_of :: "'ast \<Rightarrow> string list"
  import_error :: "string \<Rightarrow> string"
  compile ::
    "'ast \<Rightarrow> (string \<Rightarrow> ModuleFuncReg list) \<Rightarrow> 'env \<Rightarrow> 'env \<times> 'code stage_result"
  execute :: "'code \<Rightarrow> 'env \<Rightarrow> ('env \<times> exec_result) option"

text \<open>Modelled from the spec: the static part of \<open>cyVmEval\<close>, missing from the header. "The
  VM tokenizes, parses, compiles" the source; imports are resolved during compilation
  (the loader runs, then the "VM resumes compilation"), and the compiler works on the
  global environment of the VM. The result is the compiled program, or the result code
  and the diagnostic of the stage that failed.
\<close>

definition compile_source ::
  "('tok, 'ast, 'code, 'env) pipeline \<Rightarrow> 'env CyUserVM \<Rightarrow> string
     \<Rightarrow> 'env CyUserVM \<times> (CyResultCode \<times> string + 'code)" where
  "compile_source P vm src =
     (case tokenize P src of
        Rejected msg \<Rightarrow> (vm, Inl (CY_ErrorToken, msg))
      | Unclassified msg \<Rightarrow> (vm, Inl (CY_ErrorUnknown, msg))
      | Accepted toks \<Rightarrow>
     (case parse P toks of
        Rejected msg \<Rightarrow> (vm, Inl (CY_ErrorParse, msg))
      | Unclassified msg \<Rightarrow> (vm, Inl (CY_ErrorUnknown, msg))
      | Accepted ast \<Rightarrow>
     (case import_all vm (imports_of P ast) of
        (vm1, Some n) \<Rightarrow> (vm1, Inl (CY_ErrorCompile, import_error P n))
      | (vm1, None) \<Rightarrow>
     (case compile P ast (funcs vm1) (globals vm1) of
        (env, Rejected msg) \<Rightarrow> (vm1\<lparr>globals := env\<rparr>, Inl (CY_ErrorCompile, msg))
      | (env, Unclassified msg) \<Rightarrow> (vm1\<lparr>globals := env\<rparr>, Inl (CY_ErrorUnknown, msg))
      | (env, Accepted code) \<Rightarrow> (vm1\<lparr>globals := env\<rparr>, Inr code)))))"

text \<open>Modelled from the spec: the passage from compilation to execution inside
  \<open>cyVmEval\<close>, missing from the header. The execution of a compiled program begins.
\<close>

definition begin_execution :: "'env CyUserVM \<Rightarrow> 'env CyUserVM" where
  "begin_execution vm = vm\<lparr>trace := trace vm @ [ExecutionBegan]\<rparr>"

text \<open>Modelled from the spec: the body of \<open>cyVmEval\<close> is missing from the header. After the
  static part the VM "executes the source as a top-level program within the VM's
  persistent global environment". The result is \<open>Success\<close> with the value, or a code with
  no out-value and "a human-readable diagnostic recorded on the VM"; \<open>None\<close> when the
  execution never returns.
\<close>

definition cyVmEval ::
  "('tok, 'ast, 'code, 'env) pipeline \<Rightarrow> 'env CyUserVM \<Rightarrow> string
     \<Rightarrow> ('env CyUserVM \<times> CyResultCode \<times> CyValue option) option" where
  "cyVmEval P vm src =
     (case compile_source P vm src of
        (vm1, Inl (rc, msg)) \<Rightarrow> Some (vm1\<lparr>lastErrorReport := msg\<rparr>, rc, None)
      | (vm1, Inr code) \<Rightarrow>
          (let vm2 = begin_execution vm1
           in case execute P code (globals vm2) of
                None \<Rightarrow> None
              | Some (env, Returned v) \<Rightarrow> Some (vm2\<lparr>globals := env\<rparr>, CY_Success, Some v)
              | Some (env, Panicked msg) \<Rightarrow>
                  Some (vm2\<lparr>globals := env, lastErrorReport := msg\<rparr>, CY_ErrorPanic, None)
              | Some (env, Aborted msg) \<Rightarrow>
                  Some (vm2\<lparr>globals := env, lastErrorReport := msg\<rparr>, CY_ErrorUnknown, None)))"

subsection \<open>Lifetime of a handle\<close>

text \<open>Modelled from the spec: the host's use of a handle, which the header leaves to its
  callers. The operations of the header that act on the modelled part of a VM, and a
  sequence of them run on a handle, "totally ordered by the calling thread's sequence".
  An eval that never returns ends the sequence, the VM being left in the execution.
\<close>

datatype vm_op = AddModuleLoader string CyLoadModuleFunc | Eval string

fun run ::
  "('tok, 'ast, 'code, 'env) pipeline \<Rightarrow> 'env CyUserVM \<Rightarrow> vm_op list \<Rightarrow> 'env CyUserVM" where
  "run P vm [] = vm"
| "run P vm (AddModuleLoader n func # ops) = run P (cyVmAddModuleLoader vm n func) ops"
| "run P vm (Eval src # ops) =
     (case cyVmEval P vm src of
        None \<Rightarrow> begin_execution (fst (compile_source P vm src))
      | Some (vm', rc, out) \<Rightarrow> run P vm' ops)"

subsection \<open>Properties of traces\<close>

text \<open>How often the loader of \<open>M\<close> was invoked.\<close>

definition loader_calls :: "string \<Rightarrow> vm_event list \<Rightarrow> nat" where
  "loader_calls M tr = length (filter (\<lambda>e. e = LoaderInvoked M) tr)"

text \<open>
  The trace is in order for \<open>M\<close>: its loader was invoked at most once, and if it was,
  no access to \<open>M\<close> comes before the invocation and one comes after.
\<close>

definition trace_ok :: "string \<Rightarrow> vm_event list \<Rightarrow> bool" where
  "trace_ok M tr \<longleftrightarrow>
     loader_calls M tr \<le> 1
     \<and> (LoaderInvoked M \<in> set tr \<longrightarrow>
          ModuleAccess M \<notin> set (takeWhile (\<lambda>e. e \<noteq> LoaderInvoked M) tr)
          \<and> ModuleAccess M \<in> set tr)"

text \<open>
  The invariant of the registrar for \<open>M\<close>: a loaded module has a trace in order, a module
  that is not loaded has neither been loaded nor accessed, and no module is left loading
  between two operations.
\<close>

definition module_inv :: "string \<Rightarrow> 'env CyUserVM \<Rightarrow> bool" where
  "module_inv M vm \<longleftrightarrow>
     (case modules vm M of
        Loaded \<Rightarrow> trace_ok M (trace vm)
      | Loading \<Rightarrow> False
      | _ \<Rightarrow> LoaderInvoked M \<notin> set (trace vm) \<and> ModuleAccess M \<notin> set (trace vm))"

subsection \<open>A concrete pipeline\<close>

text \<open>
  A small language on which the model can be evaluated: a program is the name of the one
  module it imports; a \<open>?\<close> is not a token, the empty program does not parse, a module
  without functions does not compile, and execution counts the programs run in the
  environment.
\<close>

definition sample_pipeline :: "(string, string, string, nat) pipeline" where
  "sample_pipeline =
     \<lparr>tokenize = (\<lambda>src. if CHR ''?'' \<in> set src then Rejected ''unexpected character'' else Accepted src),
      parse = (\<lambda>toks. if toks = [] then Rejected ''unexpected end of input'' else Accepted toks),
      imports_of = (\<lambda>ast. [ast]),
      import_error = (\<lambda>n. ''module not found: '' @ n),
      compile = (\<lambda>ast fs env. (env, if fs ast = [] then Rejected ''module has no functions''
                                    else Accepted ast)),
      execute = (\<lambda>code env. Some (Suc env, Returned 0))\<rparr>"


section \<open>Properties of the declarations\<close>

lemma strlen_Some_iff: "(\<exists>n. strlen X = Some n) \<longleftrightarrow> 0 \<in> set X"
  by (induction X) auto

lemma strlen_takeWhile: "strlen X = Some n \<Longrightarrow> n = length (takeWhile (\<lambda>c. c \<noteq> 0) X)"
  by (induction X arbitrary: n) (auto split: if_splits)

lemma strlen_terminator:
  "strlen X = Some n \<Longrightarrow> n < length X \<and> X ! n = 0 \<and> 0 \<notin> set (take n X)"
proof (induction X arbitrary: n)
  case Nil
  then show ?case by simp
next
  case (Cons c cs)
  show ?case
  proof (cases "c = 0")
    case True
    with Cons.prems show ?thesis by simp
  next
    case False
    with Cons.prems obtain m where m: "strlen cs = Some m" "n = Suc m"
      by auto
    from Cons.IH [OF m(1)] False m(2) show ?thesis by simp
  qed
qed

text \<open>
  C2. The result-code enumeration has exactly six members, and the C rule for enumerator
  values gives them, in the order of the declaration, \<open>CY_Success = 0\<close>,
  \<open>CY_ErrorToken = 1\<close>, \<open>CY_ErrorParse = 2\<close>, \<open>CY_ErrorCompile = 3\<close>,
  \<open>CY_ErrorPanic = 4\<close>, \<open>CY_ErrorUnknown = 5\<close>; the only member whose value is zero
  is \<open>CY_Success\<close>.
\<close>

theorem CyResultCode_values_ok:
  "CyResultCode_values =
     [(CY_Success, 0), (CY_ErrorToken, 1), (CY_ErrorParse, 2),
      (CY_ErrorCompile, 3), (CY_ErrorPanic, 4), (CY_ErrorUnknown, 5)]
   \<and> length CyResultCode_enumerators = 6
   \<and> distinct (map fst CyResultCode_enumerators)
   \<and> set (map fst CyResultCode_enumerators) = UNIV
   \<and> map fst (filter (\<lambda>(e, v). v = 0) CyResultCode_values) = [CY_Success]"
proof -
  have vals: "CyResultCode_values =
     [(CY_Success, 0), (CY_ErrorToken, 1), (CY_ErrorParse, 2),
      (CY_ErrorCompile, 3), (CY_ErrorPanic, 4), (CY_ErrorUnknown, 5)]"
    by (simp add: CyResultCode_values_def CyResultCode_enumerators_def)
  have univ: "set (map fst CyResultCode_enumerators) = UNIV"
  proof -
    have "c \<in> set (map fst CyResultCode_enumerators)" for c
      by (cases c) (simp_all add: CyResultCode_enumerators_def)
    then show ?thesis by blast
  qed
  show ?thesis
    using univ by (simp add: vals) (simp add: CyResultCode_enumerators_def)
qed

text \<open>
  C7. A \<open>CyValue\<close> is a fixed-width 64-bit datum: every value of the type, whatever it
  encodes, has exactly 64 bits and is determined by them, every sequence of 64 bits is
  the representation of a value, and a copy of a value is that value.
\<close>

theorem CyValue_is_64_bits:
  "length (CyValue_bits v) = 64
   \<and> CyValue_of_bits (CyValue_bits v) = v
   \<and> (length bs = 64 \<longrightarrow> CyValue_bits (CyValue_of_bits bs) = bs)
   \<and> CyValue_copy v = v"
proof -
  have len: "length (CyValue_bits v) = 64"
    by (simp add: CyValue_bits_def word_size)
  have "CyValue_of_bits (CyValue_bits v) = take_bit 64 v"
    unfolding CyValue_of_bits_def CyValue_bits_def word_size
    using horner_sum_bit_eq_take_bit [of v 64] by simp
  moreover have "take_bit 64 v = v" by (rule take_bit_word_eq_self) simp
  ultimately have dec: "CyValue_of_bits (CyValue_bits v) = v" by simp
  have enc: "CyValue_bits (CyValue_of_bits bs) = bs" if l: "length bs = 64"
  proof (rule nth_equalityI)
    show "length (CyValue_bits (CyValue_of_bits bs)) = length bs"
      using l by (simp add: CyValue_bits_def word_size)
  next
    fix i
    assume "i < length (CyValue_bits (CyValue_of_bits bs))"
    then have i: "i < 64" by (simp add: CyValue_bits_def word_size)
    then show "CyValue_bits (CyValue_of_bits bs) ! i = bs ! i"
      using l by (simp add: CyValue_bits_def CyValue_of_bits_def word_size
          bit_horner_sum_bit_word_iff)
  qed
  from len dec enc show ?thesis by (simp add: CyValue_copy_def)
qed

theorem CyValue_is_64_bits_witness:
  "length (replicate 63 False @ [True]) = 64
   \<and> CyValue_of_bits (replicate 63 False @ [True]) = 0x8000000000000000
   \<and> CyValue_bits 0x8000000000000000 = replicate 63 False @ [True]
   \<and> CyValue_copy 0x8000000000000000 = 0x8000000000000000"
proof -
  have h: "length (replicate 63 False @ [True]) = 64" by simp
  have e: "CyValue_of_bits (replicate 63 False @ [True]) = 0x8000000000000000"
    by code_simp
  from CyValue_is_64_bits [of "0x8000000000000000" "replicate 63 False @ [True]"] h e
  show ?thesis by simp
qed

text \<open>
  C8. \<open>CY_NullId\<close> is the 32-bit unsigned constant \<open>UINT32_MAX\<close>, that is
  \<open>0xFFFFFFFF\<close>, the pattern with all 32 bits set.
\<close>

theorem CY_NullId_all_ones:
  "CY_NullId = 0xFFFFFFFF \<and> CY_NullId = NOT 0 \<and> unat CY_NullId = 4294967295
   \<and> CY_NullId = UINT32_MAX"
  by (simp add: CY_NullId_def UINT32_MAX_def)

text \<open>
  C9. The argument count a native function receives is an 8-bit value, so it is at most
  255; a function registered with \<open>numParams\<close> above 255 never receives an argument
  count equal to that arity, neither as numbers nor under C's comparison.
\<close>

theorem nargs_at_most_255:
  "unat (nargs call) \<le> 255
   \<and> (255 < unat (numParams reg) \<longrightarrow>
        unat (nargs call) \<noteq> unat (numParams reg) \<and> \<not> nargs_eq_numParams call reg)"
proof -
  have b: "unat (nargs call) < 256" using unsigned_less [of "nargs call"] by simp
  have u: "unat (ucast (nargs call) :: 32 word) = unat (nargs call)"
  proof -
    have "unat (ucast (nargs call) :: 32 word) = take_bit 32 (unat (nargs call))"
      using unsigned_ucast_eq [of "nargs call", where ?'c = 32 and ?'a = nat] by simp
    also have "\<dots> = unat (nargs call)"
      using b by (simp add: take_bit_nat_eq_self_iff)
    finally show ?thesis .
  qed
  show ?thesis using b u by (auto simp: nargs_eq_numParams_def)
qed

theorem nargs_at_most_255_witness:
  "255 < unat (numParams \<lparr>name = \<lparr>charz = [102, 0], len = 1\<rparr>, numParams = 256\<rparr>)
   \<and> \<not> nargs_eq_numParams \<lparr>args = [], nargs = 0\<rparr>
         \<lparr>name = \<lparr>charz = [102, 0], len = 1\<rparr>, numParams = 256\<rparr>
   \<and> unat (nargs \<lparr>args = [], nargs = 255\<rparr>) \<le> 255"
proof -
  have h: "255 < unat (numParams \<lparr>name = \<lparr>charz = [102, 0], len = 1\<rparr>, numParams = 256\<rparr>)"
    by simp
  from nargs_at_most_255 [of "\<lparr>args = [], nargs = 0\<rparr>"
      "\<lparr>name = \<lparr>charz = [102, 0], len = 1\<rparr>, numParams = 256\<rparr>"] h
  have "\<not> nargs_eq_numParams \<lparr>args = [], nargs = 0\<rparr>
         \<lparr>name = \<lparr>charz = [102, 0], len = 1\<rparr>, numParams = 256\<rparr>"
    by blast
  with h show ?thesis by simp
qed

text \<open>
  C10. For every NUL-terminated string \<open>X\<close>, \<open>cstr(X)\<close> yields a \<open>CStr\<close> whose
  \<open>charz\<close> is \<open>X\<close> and whose \<open>len\<close> is \<open>strlen(X)\<close>; \<open>charz[len]\<close> is the NUL
  terminator and no byte before it is NUL, so the length excludes the terminator.
\<close>

theorem cstr_ok:
  "0 \<in> set X \<Longrightarrow>
   \<exists>c. cstr X = Some c \<and> charz c = X \<and> strlen X = Some (len c)
     \<and> len c < length X \<and> charz c ! len c = 0 \<and> 0 \<notin> set (take (len c) (charz c))"
proof -
  assume "0 \<in> set X"
  then obtain n where n: "strlen X = Some n" using strlen_Some_iff by blast
  from strlen_terminator [OF n] n show ?thesis by (simp add: cstr_def)
qed

theorem cstr_ok_witness:
  "(0::cchar) \<in> set [104, 105, 0, 120]
   \<and> cstr [104, 105, 0, 120] = Some \<lparr>charz = [104, 105, 0, 120], len = 2\<rparr>
   \<and> [104, 105, 0, 120 :: cchar] ! 2 = 0"
proof -
  have h: "(0::cchar) \<in> set [104, 105, 0, 120]" by simp
  have e: "cstr [104, 105, 0, 120] = Some \<lparr>charz = [104, 105, 0, 120], len = 2\<rparr>"
    by (simp add: cstr_def)
  from cstr_ok [OF h] obtain c where
    c: "cstr [104, 105, 0, 120] = Some c" "charz c ! len c = 0"
    by blast
  from c e have "[104, 105, 0, 120 :: cchar] ! 2 = 0" by simp
  with h e show ?thesis by blast
qed

section \<open>Properties of the value encoding\<close>

text \<open>The bit pattern and the three fields of a double determine each other.\<close>

lemma sign_double_bits: "bit (double_bits d) 63 = sign d"
  by (auto simp add: double_bits_def bit_simps dest: bit_imp_le_length)

lemma fraction_double_bits: "ucast (double_bits d) = fraction d"
  by (rule bit_eqI) (auto simp add: double_bits_def bit_simps)

lemma exponent_double_bits: "ucast (drop_bit 52 (double_bits d)) = exponent d"
  by (rule bit_eqI) (auto simp add: double_bits_def bit_simps dest: bit_imp_le_length)

lemma double_of_bits_double_bits: "double_of_bits (double_bits d) = d"
  by (simp add: double_of_bits_def sign_double_bits fraction_double_bits exponent_double_bits)

lemma double_bits_double_of_bits: "double_bits (double_of_bits w) = w"
proof (rule bit_eqI)
  fix n
  assume "possible_bit TYPE(64 word) n"
  then have n: "n < 64" by simp
  consider "n < 52" | "52 \<le> n" "n < 63" | "n = 63" using n by linarith
  then show "bit (double_bits (double_of_bits w)) n = bit w n"
  proof cases
    case 1
    then show ?thesis by (auto simp add: double_bits_def double_of_bits_def bit_simps)
  next
    case 2
    then show ?thesis by (auto simp add: double_bits_def double_of_bits_def bit_simps)
  next
    case 3
    then show ?thesis by (auto simp add: double_bits_def double_of_bits_def bit_simps)
  qed
qed

text \<open>
  C1. For every finite double \<open>d\<close>, \<open>cyValueAsDouble (cyValueNumber d)\<close> is \<open>d\<close>, with
  the same 64-bit pattern; positive infinity, negative infinity and the canonical quiet
  NaN round-trip as well.
\<close>

theorem cyValueNumber_roundtrip:
  "(double_is_finite d \<longrightarrow>
      cyValueAsDouble (cyValueNumber d) = d
      \<and> double_bits (cyValueAsDouble (cyValueNumber d)) = double_bits d)
   \<and> cyValueAsDouble (cyValueNumber positive_infinity) = positive_infinity
   \<and> cyValueAsDouble (cyValueNumber negative_infinity) = negative_infinity
   \<and> cyValueAsDouble (cyValueNumber canonical_quiet_nan) = canonical_quiet_nan"
  by (simp add: cyValueAsDouble_def cyValueNumber_def double_of_bits_double_bits)

theorem cyValueNumber_roundtrip_witness:
  "double_is_finite \<lparr>sign = False, exponent = 0x400, fraction = 2 ^ 51\<rparr>
   \<and> cyValueNumber \<lparr>sign = False, exponent = 0x400, fraction = 2 ^ 51\<rparr> = 0x4008000000000000
   \<and> cyValueAsDouble (cyValueNumber \<lparr>sign = False, exponent = 0x400, fraction = 2 ^ 51\<rparr>)
       = \<lparr>sign = False, exponent = 0x400, fraction = 2 ^ 51\<rparr>
   \<and> cyValueNumber canonical_quiet_nan = 0x7FF8000000000000"
proof -
  have h: "double_is_finite \<lparr>sign = False, exponent = 0x400, fraction = 2 ^ 51\<rparr>"
    by (simp add: double_is_finite_def)
  have b: "cyValueNumber \<lparr>sign = False, exponent = 0x400, fraction = 2 ^ 51\<rparr>
      = 0x4008000000000000"
    by (simp add: cyValueNumber_def double_bits_def)
  have n: "cyValueNumber canonical_quiet_nan = 0x7FF8000000000000"
    by (simp add: cyValueNumber_def double_bits_def canonical_quiet_nan_def)
  from cyValueNumber_roundtrip [of "\<lparr>sign = False, exponent = 0x400, fraction = 2 ^ 51\<rparr>"] h
  have "cyValueAsDouble (cyValueNumber \<lparr>sign = False, exponent = 0x400, fraction = 2 ^ 51\<rparr>)
       = \<lparr>sign = False, exponent = 0x400, fraction = 2 ^ 51\<rparr>"
    by blast
  with h b n show ?thesis by blast
qed

section \<open>Properties of the virtual machine\<close>

subsection \<open>The registrar keeps every trace in order\<close>

lemma loader_calls_0: "LoaderInvoked M \<notin> set tr \<Longrightarrow> loader_calls M tr = 0"
  by (induction tr) (auto simp: loader_calls_def)

lemma loader_calls_append: "loader_calls M (xs @ ys) = loader_calls M xs + loader_calls M ys"
  by (simp add: loader_calls_def)

lemma trace_ok_fresh: "LoaderInvoked M \<notin> set tr \<Longrightarrow> trace_ok M tr"
  by (simp add: trace_ok_def loader_calls_0)

lemma trace_ok_snoc:
  assumes "trace_ok M tr" and "LoaderInvoked M \<notin> set evs"
  shows "trace_ok M (tr @ evs)"
proof (cases "LoaderInvoked M \<in> set tr")
  case True
  then have "takeWhile (\<lambda>e. e \<noteq> LoaderInvoked M) (tr @ evs)
      = takeWhile (\<lambda>e. e \<noteq> LoaderInvoked M) tr"
    by (simp add: takeWhile_append1)
  with assms True show ?thesis
    by (simp add: trace_ok_def loader_calls_append loader_calls_0)
next
  case False
  with assms(2) show ?thesis by (simp add: trace_ok_fresh)
qed

lemma trace_ok_load:
  assumes "LoaderInvoked M \<notin> set tr" and "ModuleAccess M \<notin> set tr"
  shows "trace_ok M (tr @ [LoaderInvoked M, LoaderReturned M, ModuleAccess M])"
proof -
  have "takeWhile (\<lambda>e. e \<noteq> LoaderInvoked M)
      (tr @ [LoaderInvoked M, LoaderReturned M, ModuleAccess M]) = tr"
    using assms(1) by (subst takeWhile_append2) auto
  with assms show ?thesis
    by (simp add: trace_ok_def loader_calls_append loader_calls_0) (simp add: loader_calls_def)
qed

lemma set_funcs_fields [simp]:
  "trace (cyVmSetModuleFunc v n reg) = trace v"
  "modules (cyVmSetModuleFunc v n reg) = modules v"
  "globals (cyVmSetModuleFunc v n reg) = globals v"
  by (simp_all add: cyVmSetModuleFunc_def)

lemma foldl_set_funcs_fields [simp]:
  "trace (foldl (\<lambda>v reg. cyVmSetModuleFunc v n reg) v regs) = trace v"
  "modules (foldl (\<lambda>v reg. cyVmSetModuleFunc v n reg) v regs) = modules v"
  "globals (foldl (\<lambda>v reg. cyVmSetModuleFunc v n reg) v regs) = globals v"
  by (induction regs arbitrary: v) simp_all

lemma load_module_fields:
  "trace (load_module vm n func) = trace vm @ [LoaderInvoked n, LoaderReturned n]"
  "modules (load_module vm n func) = (modules vm)(n := Loaded)"
  "globals (load_module vm n func) = globals vm"
  by (simp_all add: load_module_def Let_def)

lemma import_module_cases:
  assumes "import_module vm n = Some vm'"
  shows "globals vm' = globals vm \<and>
    (modules vm n = Loaded \<and> modules vm' = modules vm
       \<and> trace vm' = trace vm @ [ModuleAccess n]
     \<or> modules vm n = Registered \<and> modules vm' = (modules vm)(n := Loaded)
       \<and> trace vm' = trace vm @ [LoaderInvoked n, LoaderReturned n, ModuleAccess n])"
  using assms
  by (auto simp: import_module_def Let_def load_module_fields
      split: module_state.splits option.splits)

lemma add_loader_inv: "module_inv M vm \<Longrightarrow> module_inv M (cyVmAddModuleLoader vm n func)"
  by (auto simp: module_inv_def cyVmAddModuleLoader_def split: module_state.splits)

lemma import_module_inv:
  assumes "module_inv M vm" and "import_module vm n = Some vm'"
  shows "module_inv M vm'"
proof -
  from import_module_cases [OF assms(2)] consider
    (cached) "modules vm n = Loaded" "modules vm' = modules vm"
      "trace vm' = trace vm @ [ModuleAccess n]"
  | (load) "modules vm n = Registered" "modules vm' = (modules vm)(n := Loaded)"
      "trace vm' = trace vm @ [LoaderInvoked n, LoaderReturned n, ModuleAccess n]"
    by blast
  then show ?thesis
  proof cases
    case cached
    show ?thesis
    proof (cases "M = n")
      case True
      with cached assms(1) have "trace_ok M (trace vm)" by (simp add: module_inv_def)
      then have "trace_ok M (trace vm @ [ModuleAccess n])" by (rule trace_ok_snoc) simp
      with cached True show ?thesis by (simp add: module_inv_def)
    next
      case False
      with cached assms(1) show ?thesis
        by (auto simp: module_inv_def intro: trace_ok_snoc split: module_state.splits)
    qed
  next
    case load
    show ?thesis
    proof (cases "M = n")
      case True
      with load assms(1) have "LoaderInvoked M \<notin> set (trace vm)" "ModuleAccess M \<notin> set (trace vm)"
        by (simp_all add: module_inv_def)
      then have "trace_ok M (trace vm @ [LoaderInvoked M, LoaderReturned M, ModuleAccess M])"
        by (rule trace_ok_load)
      with load True show ?thesis by (simp add: module_inv_def)
    next
      case False
      with load assms(1) show ?thesis
        by (auto simp: module_inv_def intro: trace_ok_snoc split: module_state.splits)
    qed
  qed
qed

lemma import_all_inv:
  "module_inv M vm \<Longrightarrow> module_inv M (fst (import_all vm ns))"
  by (induction ns arbitrary: vm) (auto split: option.splits dest: import_module_inv)

lemma module_inv_update [simp]:
  "module_inv M (vm\<lparr>lastErrorReport := r\<rparr>) = module_inv M vm"
  "module_inv M (vm\<lparr>globals := g\<rparr>) = module_inv M vm"
  by (simp_all add: module_inv_def split: module_state.splits)

lemma compile_source_vm:
  "fst (compile_source P vm src) = vm
   \<or> (\<exists>ns env. fst (compile_source P vm src) = (fst (import_all vm ns))\<lparr>globals := env\<rparr>)"
proof (cases "tokenize P src")
  case (Accepted toks)
  show ?thesis
  proof (cases "parse P toks")
    case Acc: (Accepted ast)
    obtain vm1 failed where i: "import_all vm (imports_of P ast) = (vm1, failed)"
      by (cases "import_all vm (imports_of P ast)")
    then have v: "vm1 = fst (import_all vm (imports_of P ast))" by simp
    have "\<exists>env. fst (compile_source P vm src) = vm1\<lparr>globals := env\<rparr>"
    proof (cases failed)
      case (Some n)
      with Accepted Acc i have "fst (compile_source P vm src) = vm1\<lparr>globals := globals vm1\<rparr>"
        by (simp add: compile_source_def)
      then show ?thesis ..
    next
      case None
      obtain env r where c: "compile P ast (funcs vm1) (globals vm1) = (env, r)"
        by (cases "compile P ast (funcs vm1) (globals vm1)")
      with None Accepted Acc i have "fst (compile_source P vm src) = vm1\<lparr>globals := env\<rparr>"
        by (cases r) (simp_all add: compile_source_def)
      then show ?thesis ..
    qed
    with v show ?thesis by blast
  qed (simp_all add: compile_source_def Accepted)
qed (simp_all add: compile_source_def)

lemma compile_source_inv:
  assumes "module_inv M vm"
  shows "module_inv M (fst (compile_source P vm src))"
proof -
  from compile_source_vm [of P vm src] consider
    "fst (compile_source P vm src) = vm"
  | ns env where "fst (compile_source P vm src) = (fst (import_all vm ns))\<lparr>globals := env\<rparr>"
    by blast
  then show ?thesis
  proof cases
    case 1
    with assms show ?thesis by simp
  next
    case 2
    with import_all_inv [OF assms, of ns] show ?thesis by simp
  qed
qed

lemma begin_execution_inv: "module_inv M vm \<Longrightarrow> module_inv M (begin_execution vm)"
  by (auto simp: module_inv_def begin_execution_def intro: trace_ok_snoc
      split: module_state.splits)

lemma cyVmEval_inv:
  assumes "module_inv M vm" and "cyVmEval P vm src = Some (vm', rc, out)"
  shows "module_inv M vm'"
proof -
  obtain vm1 r where c: "compile_source P vm src = (vm1, r)" by (cases "compile_source P vm src")
  with compile_source_inv [OF assms(1), of P src] have "module_inv M vm1" by simp
  then have "module_inv M (begin_execution vm1)" by (rule begin_execution_inv)
  with \<open>module_inv M vm1\<close> assms(2) c show ?thesis
    by (auto simp: cyVmEval_def Let_def split: sum.splits option.splits exec_result.splits)
qed

lemma run_inv: "module_inv M vm \<Longrightarrow> module_inv M (run P vm ops)"
proof (induction ops arbitrary: vm)
  case Nil
  then show ?case by simp
next
  case (Cons op ops)
  show ?case
  proof (cases op)
    case (AddModuleLoader n func)
    with Cons show ?thesis by (simp add: add_loader_inv)
  next
    case (Eval src)
    show ?thesis
    proof (cases "cyVmEval P vm src")
      case None
      with Eval Cons.prems show ?thesis
        by (simp add: begin_execution_inv compile_source_inv)
    next
      case (Some res)
      obtain vm' rc out where "res = (vm', rc, out)" by (cases res)
      with Some Eval Cons show ?thesis by (auto dest: cyVmEval_inv)
    qed
  qed
qed

lemma create_inv: "module_inv M (cyVmCreate builtins env0)"
  by (simp add: module_inv_def cyVmCreate_def trace_ok_fresh)

lemma module_inv_trace_ok: "module_inv M vm \<Longrightarrow> trace_ok M (trace vm)"
  by (auto simp: module_inv_def trace_ok_fresh split: module_state.splits)

lemmas vm_defs = cyVmEval_def compile_source_def sample_pipeline_def import_module_def
  load_module_def cyVmAddModuleLoader_def cyVmCreate_def begin_execution_def
  cyVmSetModuleFunc_def Let_def

text \<open>
  C3. Over any sequence of operations on a freshly created VM, the loader of a module
  name \<open>M\<close> is invoked at most once; when it is invoked, no access to \<open>M\<close> precedes the
  invocation and an access follows it (the loader runs on an import, not before);
  registering a loader invokes nothing.
\<close>

theorem loader_at_most_once:
  "loader_calls M (trace (run P (cyVmCreate builtins env0) ops)) \<le> 1
   \<and> (LoaderInvoked M \<in> set (trace (run P (cyVmCreate builtins env0) ops)) \<longrightarrow>
        ModuleAccess M \<notin> set (takeWhile (\<lambda>e. e \<noteq> LoaderInvoked M)
                                 (trace (run P (cyVmCreate builtins env0) ops)))
        \<and> ModuleAccess M \<in> set (trace (run P (cyVmCreate builtins env0) ops)))
   \<and> trace (cyVmAddModuleLoader (run P (cyVmCreate builtins env0) ops) M func)
       = trace (run P (cyVmCreate builtins env0) ops)"
proof -
  have "module_inv M (run P (cyVmCreate builtins env0) ops)"
    by (rule run_inv) (rule create_inv)
  then have "trace_ok M (trace (run P (cyVmCreate builtins env0) ops))"
    by (rule module_inv_trace_ok)
  then show ?thesis by (simp add: trace_ok_def cyVmAddModuleLoader_def)
qed

theorem loader_at_most_once_witness:
  "LoaderInvoked ''math'' \<in> set (trace (run sample_pipeline (cyVmCreate [] 0)
      [AddModuleLoader ''math'' [\<lparr>name = \<lparr>charz = [115, 113, 0], len = 2\<rparr>, numParams = 1\<rparr>],
       Eval ''math'', Eval ''math'']))
   \<and> loader_calls ''math'' (trace (run sample_pipeline (cyVmCreate [] 0)
      [AddModuleLoader ''math'' [\<lparr>name = \<lparr>charz = [115, 113, 0], len = 2\<rparr>, numParams = 1\<rparr>],
       Eval ''math'', Eval ''math''])) \<le> 1
   \<and> ModuleAccess ''math'' \<notin> set (takeWhile (\<lambda>e. e \<noteq> LoaderInvoked ''math'') (trace (run sample_pipeline (cyVmCreate [] 0)
      [AddModuleLoader ''math'' [\<lparr>name = \<lparr>charz = [115, 113, 0], len = 2\<rparr>, numParams = 1\<rparr>],
       Eval ''math'', Eval ''math''])))
   \<and> trace (run sample_pipeline (cyVmCreate [] 0)
      [AddModuleLoader ''math'' [\<lparr>name = \<lparr>charz = [115, 113, 0], len = 2\<rparr>, numParams = 1\<rparr>],
       Eval ''math'', Eval ''math''])
     = [LoaderInvoked ''math'', LoaderReturned ''math'', ModuleAccess ''math'', ExecutionBegan,
        ModuleAccess ''math'', ExecutionBegan]"
proof -
  have t: "trace (run sample_pipeline (cyVmCreate [] 0)
      [AddModuleLoader ''math'' [\<lparr>name = \<lparr>charz = [115, 113, 0], len = 2\<rparr>, numParams = 1\<rparr>],
       Eval ''math'', Eval ''math''])
     = [LoaderInvoked ''math'', LoaderReturned ''math'', ModuleAccess ''math'', ExecutionBegan,
        ModuleAccess ''math'', ExecutionBegan]"
    by (simp add: vm_defs)
  then have h: "LoaderInvoked ''math'' \<in> set (trace (run sample_pipeline (cyVmCreate [] 0)
      [AddModuleLoader ''math'' [\<lparr>name = \<lparr>charz = [115, 113, 0], len = 2\<rparr>, numParams = 1\<rparr>],
       Eval ''math'', Eval ''math'']))"
    by simp
  from loader_at_most_once [of "''math''" sample_pipeline "[]" 0
      "[AddModuleLoader ''math'' [\<lparr>name = \<lparr>charz = [115, 113, 0], len = 2\<rparr>, numParams = 1\<rparr>],
       Eval ''math'', Eval ''math'']" "[]"] h
  have "loader_calls ''math'' (trace (run sample_pipeline (cyVmCreate [] 0)
      [AddModuleLoader ''math'' [\<lparr>name = \<lparr>charz = [115, 113, 0], len = 2\<rparr>, numParams = 1\<rparr>],
       Eval ''math'', Eval ''math''])) \<le> 1
   \<and> ModuleAccess ''math'' \<notin> set (takeWhile (\<lambda>e. e \<noteq> LoaderInvoked ''math'') (trace (run sample_pipeline (cyVmCreate [] 0)
      [AddModuleLoader ''math'' [\<lparr>name = \<lparr>charz = [115, 113, 0], len = 2\<rparr>, numParams = 1\<rparr>],
       Eval ''math'', Eval ''math''])))"
    by blast
  with h t show ?thesis by blast
qed

end
